theory Spec2Isabelle
  imports Main "HOL-Library.Word"
begin

section \<open>The launcher of the CYD MIDI controller (CYD-MIDI-Controller.ino)\<close>

text \<open>
  The sketch is the launcher of a touchscreen MIDI controller: a menu of application icons,
  a polling loop that dispatches on the current mode, and two Bluetooth callbacks. Its globals
  become a record that every function takes and returns; every call the sketch makes to a
  collaborator (the display driver, the touch helpers, the MIDI helpers, the mode headers) is
  written, in program order, to the list of calls the function returns beside the new globals.
  An array read past the end of \<open>apps\<close> is undefined behaviour in C++ and is the value
  \<open>None\<close> here.

  C \<open>int\<close> is modelled by HOL \<open>int\<close>. The sketch computes only with an index \<open>i\<close> below
  \<open>numApps\<close>, never negative (so C and HOL agree on \<open>/\<close> and \<open>%\<close>), and its largest
  intermediate value is \<open>65 + (i / 5) * 63\<close>: this stays below \<open>2 ^ 31\<close> for every index
  below 170 million, far beyond the capacity \<open>MAX_APPS\<close> and beyond any array of icons that
  fits the address space.
\<close>

subsection \<open>Data\<close>

text \<open>
  Modelled from the spec: \<open>enum AppMode\<close> is declared in common_definitions.h, which is not
  among the sources. Its values are the eleven the sketch names in the \<open>switch\<close> of \<open>loop\<close>
  ("one Menu value plus one value per instrument mode").
\<close>

datatype AppMode =
    MENU | KEYBOARD | SEQUENCER | BOUNCING_BALL | PHYSICS_DROP | RANDOM_GENERATOR
  | XY_PAD | ARPEGGIATOR | GRID_PIANO | AUTO_CHORD | LFO

text \<open>
  Modelled from the spec: \<open>struct TouchState\<close> is declared in common_definitions.h as well;
  the sketch reads only \<open>justPressed\<close>. The fields are those of the spec's data model:
  a position in display space, the pressed bit and its rising edge.
\<close>

record TouchState =
  touch_x :: int
  touch_y :: int
  pressed :: bool
  justPressed :: bool

record AppIcon =
  name :: string
  symbol :: string
  color :: "16 word"
  mode :: AppMode

text \<open>
  The theme colours are macros of ui_elements.h (not among the sources) and stay symbolic;
  an icon's own colour is a packed RGB565 value.
\<close>

datatype colour =
    THEME_BG | THEME_SURFACE | THEME_PRIMARY | THEME_TEXT | THEME_TEXT_DIM
  | THEME_ERROR | THEME_SUCCESS | RGB565 "16 word"

text \<open>
  The calls to collaborators. \<open>IsButtonPressed\<close> is the query of the touch helper,
  \<open>DrawModeScreen m\<close> stands for \<open>drawKeyboardMode()\<close> ... \<open>drawLFOMode()\<close>,
  \<open>HandleMode m t\<close> for \<open>handleKeyboardMode()\<close> ... \<open>handleLFOMode()\<close> called while the
  global \<open>touch\<close> holds \<open>t\<close>, \<open>InitializeMode m\<close> for the \<open>initialize...Mode()\<close> calls
  of \<open>setup\<close>. \<open>DrawAppGraphics\<close> is the decorative artwork of one icon, a function of the
  sketch that only paints inside the icon and is kept as one call.
\<close>

datatype call =
    FillScreen colour
  | FillRect int int int int colour
  | DrawFastHLine int int int colour
  | SetTextColor colour colour
  | DrawCentreString string int int int
  | DrawString string int int int
  | FillRoundRect int int int int int colour
  | DrawRoundRect int int int int int colour
  | DrawAppGraphics AppMode int int int
  | UpdateStatus
  | SendMIDI int int int
  | UpdateTouch
  | IsButtonPressed int int int int
  | DrawModeScreen AppMode
  | HandleMode AppMode TouchState
  | InitializeMode AppMode
  | StopAllModes
  | Delay int

text \<open>The globals of the sketch that its own code reads or writes.\<close>

record ctx =
  deviceConnected :: bool
  touch :: TouchState
  currentMode :: AppMode
  apps :: "AppIcon list"
  numApps :: int

definition MAX_APPS :: nat where
  "MAX_APPS = 12"

text \<open>The initialiser of \<open>apps[]\<close>; the symbols are the UTF-8 bytes of the source.\<close>

definition apps_init :: "AppIcon list" where
  "apps_init =
    [ \<lparr>name = ''KEYS'', symbol = [CHR 0xE2, CHR 0x99, CHR 0xAA], color = 0xF800, mode = KEYBOARD\<rparr>,
      \<lparr>name = ''BEATS'', symbol = [CHR 0xE2, CHR 0x99, CHR 0xAB], color = 0xFD00, mode = SEQUENCER\<rparr>,
      \<lparr>name = ''ZEN'', symbol = [CHR 0xE2, CHR 0x97, CHR 0x8F], color = 0xFFE0, mode = BOUNCING_BALL\<rparr>,
      \<lparr>name = ''DROP'', symbol = [CHR 0xE2, CHR 0xAC, CHR 0x87], color = 0x07E0, mode = PHYSICS_DROP\<rparr>,
      \<lparr>name = ''RNG'', symbol = [CHR 0xE2, CHR 0x80, CHR 0xBB], color = 0x001F, mode = RANDOM_GENERATOR\<rparr>,
      \<lparr>name = ''XY PAD'', symbol = [CHR 0xE2, CHR 0x97, CHR 0x88], color = 0x781F, mode = XY_PAD\<rparr>,
      \<lparr>name = ''ARP'', symbol = [CHR 0xE2, CHR 0x86, CHR 0x97], color = 0xF81F, mode = ARPEGGIATOR\<rparr>,
      \<lparr>name = ''GRID'', symbol = [CHR 0xE2, CHR 0x96, CHR 0xA3], color = 0x07FF, mode = GRID_PIANO\<rparr>,
      \<lparr>name = ''CHORD'', symbol = [CHR 0xE2, CHR 0x9A, CHR 0x98], color = 0xFBE0, mode = AUTO_CHORD\<rparr>,
      \<lparr>name = ''LFO'', symbol = [], color = 0xAFE5, mode = LFO\<rparr> ]"

text \<open>
  The globals as their initialisers leave them. The initial value of \<open>touch\<close> is fixed by
  the missing declaration of \<open>TouchState\<close> and is a parameter.
\<close>

definition power_on :: "TouchState \<Rightarrow> ctx" where
  "power_on t0 =
    \<lparr>deviceConnected = False, touch = t0, currentMode = MENU, apps = apps_init, numApps = 10\<rparr>"

definition no_touch :: TouchState where
  "no_touch = \<lparr>touch_x = 0, touch_y = 0, pressed = False, justPressed = False\<rparr>"

subsection \<open>drawMenu\<close>

text \<open>
  The body of the \<open>for\<close> loop of \<open>drawMenu\<close> for index \<open>i\<close>, with the locals of the
  function as the source computes them. (\<open>rows\<close> is computed by the source and never used.)
\<close>

definition drawMenu_icon :: "AppIcon list \<Rightarrow> nat \<Rightarrow> call list option" where
  "drawMenu_icon as i =
    (let iconSize = 40; spacing = 8; cols = 5;
         startX = (320 - (cols * iconSize + (cols - 1) * spacing)) div 2;
         startY = 65;
         col = int i mod cols;
         row = int i div cols;
         x = startX + col * (iconSize + spacing);
         y = startY + row * (iconSize + spacing + 15)
     in if i < length as then
          (let iconColor = RGB565 (color (as ! i)) in
           Some [ FillRoundRect x y iconSize iconSize 8 iconColor,
                  DrawRoundRect x y iconSize iconSize 8 THEME_TEXT,
                  DrawAppGraphics (mode (as ! i)) x y iconSize,
                  SetTextColor THEME_BG iconColor,
                  DrawCentreString (symbol (as ! i)) (x + iconSize div 2) (y + iconSize div 2 - 8) 2,
                  SetTextColor THEME_TEXT THEME_BG,
                  DrawCentreString (name (as ! i)) (x + iconSize div 2) (y + iconSize + 5) 1 ])
        else None)"

fun drawMenu_icons :: "AppIcon list \<Rightarrow> nat list \<Rightarrow> call list option" where
  "drawMenu_icons as [] = Some []"
| "drawMenu_icons as (i # is) =
    (case drawMenu_icon as i of
       None \<Rightarrow> None
     | Some cs \<Rightarrow> (case drawMenu_icons as is of None \<Rightarrow> None | Some rest \<Rightarrow> Some (cs @ rest)))"

definition drawMenu_header :: "call list" where
  "drawMenu_header =
    [ FillScreen THEME_BG,
      FillRect 0 0 320 50 THEME_SURFACE,
      DrawFastHLine 0 50 320 THEME_PRIMARY,
      SetTextColor THEME_PRIMARY THEME_SURFACE,
      DrawCentreString ''MIDI CONTROLLER'' 160 12 4,
      SetTextColor THEME_TEXT_DIM THEME_SURFACE,
      DrawCentreString ''Cheap Yellow Display'' 160 32 2,
      SetTextColor THEME_TEXT_DIM THEME_SURFACE,
      DrawString ''v0.1'' 280 37 1 ]"

definition drawMenu_status :: "bool \<Rightarrow> call list" where
  "drawMenu_status connected =
    (if \<not> connected
     then [SetTextColor THEME_ERROR THEME_BG, DrawCentreString ''BLE WAITING...'' 160 210 2]
     else [FillRect 100 200 120 20 THEME_BG])
    @ [ SetTextColor (if connected then THEME_SUCCESS else THEME_ERROR) THEME_BG,
        DrawString (if connected then [CHR 0xE2, CHR 0x97, CHR 0x8F]
                    else [CHR 0xE2, CHR 0x97, CHR 0x8B]) 290 55 2 ]"

definition drawMenu :: "ctx \<Rightarrow> call list option" where
  "drawMenu c =
    (case drawMenu_icons (apps c) [0..<nat (numApps c)] of
       None \<Rightarrow> None
     | Some icons \<Rightarrow> Some (drawMenu_header @ drawMenu_status (deviceConnected c) @ icons))"

subsection \<open>The Bluetooth callbacks\<close>

text \<open>
  The loop \<open>for (int i = 0; i < 128; i++) sendMIDI(0x80, i, 0);\<close> at the end of
  \<open>onDisconnect\<close>, under its comment "Stop all notes".
\<close>

definition stopAllNotes :: "call list" where
  "stopAllNotes = map (\<lambda>i. SendMIDI 0x80 (int i) 0) [0..<128]"

definition onConnect :: "ctx \<Rightarrow> (call list \<times> ctx) option" where
  "onConnect c =
    (let c1 = c\<lparr>deviceConnected := True\<rparr> in
     case (if currentMode c1 = MENU then drawMenu c1 else Some []) of
       None \<Rightarrow> None
     | Some out \<Rightarrow> Some (out @ [UpdateStatus], c1))"

definition onDisconnect :: "ctx \<Rightarrow> (call list \<times> ctx) option" where
  "onDisconnect c =
    (let c1 = c\<lparr>deviceConnected := False\<rparr> in
     case (if currentMode c1 = MENU then drawMenu c1 else Some []) of
       None \<Rightarrow> None
     | Some out \<Rightarrow> Some (out @ [UpdateStatus] @ stopAllNotes, c1))"

subsection \<open>Entering and leaving a mode\<close>

text \<open>The \<open>switch\<close> of \<open>enterMode\<close> has no case for \<open>MENU\<close>: nothing is drawn then.\<close>

definition enterMode :: "AppMode \<Rightarrow> ctx \<Rightarrow> call list \<times> ctx" where
  "enterMode m c =
    (let c1 = c\<lparr>currentMode := m\<rparr> in
     ((case m of
         KEYBOARD \<Rightarrow> [DrawModeScreen KEYBOARD]
       | SEQUENCER \<Rightarrow> [DrawModeScreen SEQUENCER]
       | BOUNCING_BALL \<Rightarrow> [DrawModeScreen BOUNCING_BALL]
       | PHYSICS_DROP \<Rightarrow> [DrawModeScreen PHYSICS_DROP]
       | RANDOM_GENERATOR \<Rightarrow> [DrawModeScreen RANDOM_GENERATOR]
       | XY_PAD \<Rightarrow> [DrawModeScreen XY_PAD]
       | ARPEGGIATOR \<Rightarrow> [DrawModeScreen ARPEGGIATOR]
       | GRID_PIANO \<Rightarrow> [DrawModeScreen GRID_PIANO]
       | AUTO_CHORD \<Rightarrow> [DrawModeScreen AUTO_CHORD]
       | LFO \<Rightarrow> [DrawModeScreen LFO]
       | MENU \<Rightarrow> [])
      @ [UpdateStatus], c1))"

definition exitToMenu :: "ctx \<Rightarrow> (call list \<times> ctx) option" where
  "exitToMenu c =
    (let c1 = c\<lparr>currentMode := MENU\<rparr> in
     case drawMenu c1 of
       None \<Rightarrow> None
     | Some out \<Rightarrow> Some ([StopAllModes] @ out @ [UpdateStatus], c1))"

subsection \<open>handleMenuTouch\<close>

text \<open>
  \<open>isButtonPressed\<close> is a helper of ui_elements.h, which is not among the sources: it is a
  parameter of the hit test, given the global \<open>touch\<close> and the four arguments of the call.
  \<open>handleMenuTouch_cell i\<close> is the argument list of the call for index \<open>i\<close>, from the locals
  of \<open>handleMenuTouch\<close>.
\<close>

type_synonym button_test = "TouchState \<Rightarrow> int \<Rightarrow> int \<Rightarrow> int \<Rightarrow> int \<Rightarrow> bool"

definition handleMenuTouch_cell :: "nat \<Rightarrow> int \<times> int \<times> int \<times> int" where
  "handleMenuTouch_cell i =
    (let iconSize = 40; spacing = 8; cols = 5;
         startX = (320 - (cols * iconSize + (cols - 1) * spacing)) div 2;
         startY = 65;
         col = int i mod cols;
         row = int i div cols;
         x = startX + col * (iconSize + spacing);
         y = startY + row * (iconSize + spacing + 15)
     in (x, y, iconSize, iconSize))"

fun handleMenuTouch_loop :: "button_test \<Rightarrow> ctx \<Rightarrow> nat list \<Rightarrow> (call list \<times> ctx) option" where
  "handleMenuTouch_loop isButtonPressed c [] = Some ([], c)"
| "handleMenuTouch_loop isButtonPressed c (i # is) =
    (case handleMenuTouch_cell i of (x, y, w, h) \<Rightarrow>
       if isButtonPressed (touch c) x y w h then
         (if i < length (apps c) then
            (case enterMode (mode (apps c ! i)) c of
               (out, c') \<Rightarrow> Some (IsButtonPressed x y w h # out, c'))
          else None)
       else
         (case handleMenuTouch_loop isButtonPressed c is of
            None \<Rightarrow> None
          | Some (out, c') \<Rightarrow> Some (IsButtonPressed x y w h # out, c')))"

definition handleMenuTouch :: "button_test \<Rightarrow> ctx \<Rightarrow> (call list \<times> ctx) option" where
  "handleMenuTouch isButtonPressed c =
     handleMenuTouch_loop isButtonPressed c [0..<nat (numApps c)]"

subsection \<open>The polling loop\<close>

text \<open>
  What one pass of \<open>loop\<close> receives from outside: the \<open>TouchState\<close> that \<open>updateTouch()\<close>
  (ui_elements.h, not among the sources) leaves in the global \<open>touch\<close>, and whether the
  handler of the active mode returns to the menu in this pass.
\<close>

record tick_input =
  sampled :: TouchState
  returnToMenu :: bool

text \<open>
  Modelled from the spec: the handlers \<open>handleKeyboardMode()\<close> ... \<open>handleLFOMode()\<close> live in
  the mode headers, which are not among the sources. They own their state; towards the
  launcher their one action is the "return to menu" trigger, the call of \<open>exitToMenu\<close>.
  \<open>modeHandler m\<close> is the call of the handler of mode \<open>m\<close>.
\<close>

definition modeHandler :: "AppMode \<Rightarrow> tick_input \<Rightarrow> ctx \<Rightarrow> (call list \<times> ctx) option" where
  "modeHandler m inp c =
    (if returnToMenu inp then
       (case exitToMenu c of
          None \<Rightarrow> None
        | Some (out, c') \<Rightarrow> Some (HandleMode m (touch c) # out, c'))
     else Some ([HandleMode m (touch c)], c))"

definition loop :: "button_test \<Rightarrow> tick_input \<Rightarrow> ctx \<Rightarrow> (call list \<times> ctx) option" where
  "loop isButtonPressed inp c =
    (let c1 = c\<lparr>touch := sampled inp\<rparr> in
     case (case currentMode c1 of
             MENU \<Rightarrow> if justPressed (touch c1) then handleMenuTouch isButtonPressed c1
                     else Some ([], c1)
           | KEYBOARD \<Rightarrow> modeHandler KEYBOARD inp c1
           | SEQUENCER \<Rightarrow> modeHandler SEQUENCER inp c1
           | BOUNCING_BALL \<Rightarrow> modeHandler BOUNCING_BALL inp c1
           | PHYSICS_DROP \<Rightarrow> modeHandler PHYSICS_DROP inp c1
           | RANDOM_GENERATOR \<Rightarrow> modeHandler RANDOM_GENERATOR inp c1
           | XY_PAD \<Rightarrow> modeHandler XY_PAD inp c1
           | ARPEGGIATOR \<Rightarrow> modeHandler ARPEGGIATOR inp c1
           | GRID_PIANO \<Rightarrow> modeHandler GRID_PIANO inp c1
           | AUTO_CHORD \<Rightarrow> modeHandler AUTO_CHORD inp c1
           | LFO \<Rightarrow> modeHandler LFO inp c1) of
       None \<Rightarrow> None
     | Some (out, c2) \<Rightarrow> Some ([UpdateTouch] @ out @ [Delay 20], c2))"

text \<open>
  \<open>setup\<close>, after the bring-up of the serial ports, the display and the Bluetooth server
  (which touch none of the globals above): the mode initialisers, the first menu, the status.
\<close>

definition setup_sketch :: "ctx \<Rightarrow> (call list \<times> ctx) option" where
  "setup_sketch c =
    (case drawMenu c of
       None \<Rightarrow> None
     | Some out \<Rightarrow>
         Some (map InitializeMode
                 [KEYBOARD, SEQUENCER, BOUNCING_BALL, RANDOM_GENERATOR, XY_PAD,
                  ARPEGGIATOR, GRID_PIANO, AUTO_CHORD, LFO]
               @ out @ [UpdateStatus], c))"

subsection \<open>Executions\<close>

text \<open>
  The Bluetooth stack delivers its two events from its own task. An execution interleaves
  them with the passes of \<open>loop\<close>, each handler running as a whole; a callback that
  preempts a pass of \<open>loop\<close> half way is not part of this model.
\<close>

datatype event = BLEConnect | BLEDisconnect | Tick tick_input

fun step :: "button_test \<Rightarrow> event \<Rightarrow> ctx \<Rightarrow> (call list \<times> ctx) option" where
  "step isButtonPressed BLEConnect c = onConnect c"
| "step isButtonPressed BLEDisconnect c = onDisconnect c"
| "step isButtonPressed (Tick inp) c = loop isButtonPressed inp c"

fun run :: "button_test \<Rightarrow> event list \<Rightarrow> ctx \<Rightarrow> (call list \<times> ctx) option" where
  "run isButtonPressed [] c = Some ([], c)"
| "run isButtonPressed (ev # evs) c =
    (case step isButtonPressed ev c of
       None \<Rightarrow> None
     | Some (out, c1) \<Rightarrow>
         (case run isButtonPressed evs c1 of
            None \<Rightarrow> None
          | Some (rest, c2) \<Rightarrow> Some (out @ rest, c2)))"

text \<open>The sketch from power-on: \<open>setup\<close>, then the events.\<close>

definition boot :: "button_test \<Rightarrow> TouchState \<Rightarrow> event list \<Rightarrow> (call list \<times> ctx) option" where
  "boot isButtonPressed t0 evs =
    (case setup_sketch (power_on t0) of
       None \<Rightarrow> None
     | Some (out, c1) \<Rightarrow>
         (case run isButtonPressed evs c1 of
            None \<Rightarrow> None
          | Some (rest, c2) \<Rightarrow> Some (out @ rest, c2)))"

subsection \<open>Reading the calls\<close>

text \<open>The traffic to the MIDI helper, as (status, data1, data2) in call order.\<close>

fun sinkCalls :: "call list \<Rightarrow> (int \<times> int \<times> int) list" where
  "sinkCalls [] = []"
| "sinkCalls (SendMIDI s d1 d2 # cs) = (s, d1, d2) # sinkCalls cs"
| "sinkCalls (_ # cs) = sinkCalls cs"

text \<open>The rectangles painted as icon backgrounds, and the rectangles given to the touch test.\<close>

fun paintedRects :: "call list \<Rightarrow> (int \<times> int \<times> int \<times> int) list" where
  "paintedRects [] = []"
| "paintedRects (FillRoundRect x y w h r col # cs) = (x, y, w, h) # paintedRects cs"
| "paintedRects (_ # cs) = paintedRects cs"

fun testedRects :: "call list \<Rightarrow> (int \<times> int \<times> int \<times> int) list" where
  "testedRects [] = []"
| "testedRects (IsButtonPressed x y w h # cs) = (x, y, w, h) # testedRects cs"
| "testedRects (_ # cs) = testedRects cs"

text \<open>
  Modelled from the spec: the encoding done by \<open>sendMIDI\<close> (midi_utils.h, not among the
  sources) is "status byte = 0x80|channel for NoteOff", the first data byte the note number.
  \<open>noteOffCount ch n\<close> counts the NoteOff messages for note \<open>n\<close> on channel \<open>ch\<close>.
\<close>

fun noteOffCount :: "int \<Rightarrow> int \<Rightarrow> (int \<times> int \<times> int) list \<Rightarrow> nat" where
  "noteOffCount ch n [] = 0"
| "noteOffCount ch n ((s, d1, d2) # ms) =
    (if s = 0x80 + ch \<and> d1 = n then 1 else 0) + noteOffCount ch n ms"

text \<open>A registry whose count does not run past its array: every read of \<open>apps[i]\<close> is in range.\<close>

definition registry_ok :: "ctx \<Rightarrow> bool" where
  "registry_ok c = (nat (numApps c) \<le> length (apps c))"

text \<open>The handlers called, each with the value of \<open>touch\<close> at the call.\<close>

fun handlerCalls :: "call list \<Rightarrow> (AppMode \<times> TouchState) list" where
  "handlerCalls [] = []"
| "handlerCalls (HandleMode m t # cs) = (m, t) # handlerCalls cs"
| "handlerCalls (_ # cs) = handlerCalls cs"

subsection \<open>Notions of the claims\<close>

text \<open>
  For index \<open>i\<close>: the call of \<open>isButtonPressed\<close> that \<open>handleMenuTouch\<close> makes, and its
  answer in state \<open>c\<close>.
\<close>

definition cellQuery :: "nat \<Rightarrow> call" where
  "cellQuery i = (case handleMenuTouch_cell i of (x, y, w, h) \<Rightarrow> IsButtonPressed x y w h)"

definition cellHit :: "button_test \<Rightarrow> ctx \<Rightarrow> nat \<Rightarrow> bool" where
  "cellHit isButtonPressed c i =
     (case handleMenuTouch_cell i of (x, y, w, h) \<Rightarrow> isButtonPressed (touch c) x y w h)"

text \<open>
  Two rectangles \<open>(x, y, w, h)\<close> overlap when they share a point, their right and bottom
  edges \<open>x + w\<close> and \<open>y + h\<close> included: the weakest notion of overlap, so the strongest of
  being apart.
\<close>

fun rectsOverlap :: "int \<times> int \<times> int \<times> int \<Rightarrow> int \<times> int \<times> int \<times> int \<Rightarrow> bool" where
  "rectsOverlap (x1, y1, w1, h1) (x2, y2, w2, h2) =
     (x1 \<le> x2 + w2 \<and> x2 \<le> x1 + w1 \<and> y1 \<le> y2 + h2 \<and> y2 \<le> y1 + h1)"

text \<open>
  Modelled from the spec: \<open>isButtonPressed\<close> (ui_elements.h, not among the sources) tests
  whether the rectangle "contains" the touch point. The spec does not say whether the far
  edges count, so a containment test is any test between the two readings: it accepts a
  point on the pixels \<open>x .. x + w - 1\<close>, \<open>y .. y + h - 1\<close> and rejects a point beyond
  \<open>x .. x + w\<close>, \<open>y .. y + h\<close>. It is asked only of touches that were just pressed, as
  \<open>loop\<close> calls the hit test on no others.
\<close>

definition insidePixels :: button_test where
  "insidePixels t x y w h =
     (x \<le> touch_x t \<and> touch_x t < x + w \<and> y \<le> touch_y t \<and> touch_y t < y + h)"

definition insideClosed :: button_test where
  "insideClosed t x y w h =
     (x \<le> touch_x t \<and> touch_x t \<le> x + w \<and> y \<le> touch_y t \<and> touch_y t \<le> y + h)"

definition containmentTest :: "button_test \<Rightarrow> bool" where
  "containmentTest isButtonPressed =
     (\<forall>t x y w h. justPressed t \<longrightarrow>
        (insidePixels t x y w h \<longrightarrow> isButtonPressed t x y w h) \<and>
        (isButtonPressed t x y w h \<longrightarrow> insideClosed t x y w h))"

text \<open>A test of this kind that also asks for the rising edge, for the examples.\<close>

definition pressedInside :: button_test where
  "pressedInside t x y w h = (justPressed t \<and> insideClosed t x y w h)"

text \<open>The centre of a rectangle.\<close>

fun rectCentre :: "int \<times> int \<times> int \<times> int \<Rightarrow> int \<times> int" where
  "rectCentre (x, y, w, h) = (x + w div 2, y + h div 2)"

definition tapAt :: "int \<times> int \<Rightarrow> TouchState" where
  "tapAt p = \<lparr>touch_x = fst p, touch_y = snd p, pressed = True, justPressed = True\<rparr>"

text \<open>A state the sketch reaches: the menu, after a peer has connected.\<close>

definition connected_menu :: ctx where
  "connected_menu = (power_on no_touch)\<lparr>deviceConnected := True\<rparr>"

text \<open>
  The menu at power-on with a tap at (160, 148), the centre of the icon with index 7
  (the second row, the third column).
\<close>

definition tap_on_grid :: ctx where
  "tap_on_grid = (power_on no_touch)\<lparr>touch := tapAt (160, 148)\<rparr>"

text \<open>
  The pass of \<open>loop\<close> that samples this tap.
\<close>

definition tap7 :: tick_input where
  "tap7 = \<lparr>sampled = tapAt (160, 148), returnToMenu = False\<rparr>"

text \<open>
  A pass of \<open>loop\<close> with no touch in which the active mode returns to the menu.
\<close>

definition leave_tick :: tick_input where
  "leave_tick = \<lparr>sampled = no_touch, returnToMenu = True\<rparr>"

text \<open>
  The state at power-on with the LFO mode entered.
\<close>

definition in_lfo :: ctx where
  "in_lfo = (power_on no_touch)\<lparr>currentMode := LFO\<rparr>"

section \<open>Facts about the calls\<close>

lemma sinkCalls_append: "sinkCalls (xs @ ys) = sinkCalls xs @ sinkCalls ys"
  by (induction xs rule: sinkCalls.induct) simp_all

lemma paintedRects_append: "paintedRects (xs @ ys) = paintedRects xs @ paintedRects ys"
  by (induction xs rule: paintedRects.induct) simp_all

lemma testedRects_append: "testedRects (xs @ ys) = testedRects xs @ testedRects ys"
  by (induction xs rule: testedRects.induct) simp_all

lemma noteOffCount_append:
  "noteOffCount ch n (xs @ ys) = noteOffCount ch n xs + noteOffCount ch n ys"
  by (induction xs) auto

lemma drawMenu_icon_in_range:
  "i < length as \<Longrightarrow> \<exists>cs. drawMenu_icon as i = Some cs"
  by (simp add: drawMenu_icon_def Let_def)

lemma drawMenu_icon_calls:
  assumes "drawMenu_icon as i = Some cs"
  shows "sinkCalls cs = []" and "testedRects cs = []"
    and "paintedRects cs = [handleMenuTouch_cell i]"
  using assms
  by (auto simp: drawMenu_icon_def handleMenuTouch_cell_def Let_def split: if_splits)

lemma drawMenu_icons_total:
  "\<forall>i \<in> set is. i < length as \<Longrightarrow> \<exists>out. drawMenu_icons as is = Some out"
proof (induction "is")
  case Nil
  show ?case by simp
next
  case (Cons i "is")
  then obtain rest where "drawMenu_icons as is = Some rest" by auto
  moreover obtain cs where "drawMenu_icon as i = Some cs"
    using Cons.prems drawMenu_icon_in_range by fastforce
  ultimately show ?case by simp
qed

lemma drawMenu_icons_calls:
  "drawMenu_icons as is = Some out \<Longrightarrow>
     sinkCalls out = [] \<and> testedRects out = [] \<and> paintedRects out = map handleMenuTouch_cell is"
proof (induction "is" arbitrary: out)
  case Nil
  then show ?case by simp
next
  case (Cons i "is")
  from Cons.prems obtain cs rest where
    cs: "drawMenu_icon as i = Some cs" and rest: "drawMenu_icons as is = Some rest"
    and out: "out = cs @ rest"
    by (auto split: option.splits)
  show ?case
    using Cons.IH [OF rest] drawMenu_icon_calls [OF cs]
    by (simp add: out sinkCalls_append testedRects_append paintedRects_append)
qed

lemma drawMenu_fixed_calls:
  "sinkCalls drawMenu_header = []" "testedRects drawMenu_header = []"
  "paintedRects drawMenu_header = []"
  "sinkCalls (drawMenu_status b) = []" "testedRects (drawMenu_status b) = []"
  "paintedRects (drawMenu_status b) = []"
  by (simp_all add: drawMenu_header_def drawMenu_status_def)

lemma drawMenu_total: "registry_ok c \<Longrightarrow> \<exists>out. drawMenu c = Some out"
proof -
  assume "registry_ok c"
  then have "\<forall>i \<in> set [0..<nat (numApps c)]. i < length (apps c)"
    by (auto simp: registry_ok_def)
  from drawMenu_icons_total [OF this] show ?thesis
    by (auto simp: drawMenu_def)
qed

lemma drawMenu_calls:
  assumes "drawMenu c = Some out"
  shows "sinkCalls out = []" and "testedRects out = []"
    and "paintedRects out = map handleMenuTouch_cell [0..<nat (numApps c)]"
proof -
  from assms obtain icons where
    icons: "drawMenu_icons (apps c) [0..<nat (numApps c)] = Some icons"
    and out: "out = drawMenu_header @ drawMenu_status (deviceConnected c) @ icons"
    by (auto simp: drawMenu_def split: option.splits)
  note facts = drawMenu_icons_calls [OF icons]
  show "sinkCalls out = []"
    by (simp add: out sinkCalls_append drawMenu_fixed_calls facts)
  show "testedRects out = []"
    by (simp add: out testedRects_append drawMenu_fixed_calls facts)
  show "paintedRects out = map handleMenuTouch_cell [0..<nat (numApps c)]"
    by (simp add: out paintedRects_append drawMenu_fixed_calls facts)
qed

lemma registry_ok_update [simp]:
  "registry_ok (c\<lparr>deviceConnected := b\<rparr>) = registry_ok c"
  "registry_ok (c\<lparr>currentMode := m\<rparr>) = registry_ok c"
  "registry_ok (c\<lparr>touch := t\<rparr>) = registry_ok c"
  by (simp_all add: registry_ok_def)

lemma sinkCalls_stopAllNotes:
  "sinkCalls stopAllNotes = map (\<lambda>i. (0x80, int i, 0)) [0..<128]"
proof -
  have "sinkCalls (map (\<lambda>i. SendMIDI 0x80 (int i) 0) ns) = map (\<lambda>i. (0x80, int i, 0)) ns" for ns
    by (induction ns) simp_all
  then show ?thesis by (simp only: stopAllNotes_def)
qed

lemma noteOffCount_sweep:
  "noteOffCount ch n (map (\<lambda>i. (0x80, int i, 0)) [0..<k]) =
     (if ch = 0 \<and> 0 \<le> n \<and> n < int k then 1 else 0)"
  by (induction k) (auto simp: noteOffCount_append)

lemma onDisconnect_result:
  assumes "registry_ok c"
  shows "\<exists>out. onDisconnect c = Some (out, c\<lparr>deviceConnected := False\<rparr>) \<and>
           sinkCalls out = map (\<lambda>i. (0x80, int i, 0)) [0..<128]"
proof (cases "currentMode c = MENU")
  case True
  obtain menu where menu: "drawMenu (c\<lparr>deviceConnected := False\<rparr>) = Some menu"
    using drawMenu_total [of "c\<lparr>deviceConnected := False\<rparr>"] assms by auto
  show ?thesis
    using True menu drawMenu_calls(1) [OF menu]
    by (simp add: onDisconnect_def sinkCalls_append sinkCalls_stopAllNotes)
next
  case False
  then show ?thesis
    by (simp add: onDisconnect_def sinkCalls_append sinkCalls_stopAllNotes)
qed

lemma onConnect_result:
  assumes "registry_ok c"
  shows "\<exists>out. onConnect c = Some (out, c\<lparr>deviceConnected := True\<rparr>) \<and> sinkCalls out = []"
proof (cases "currentMode c = MENU")
  case True
  obtain menu where menu: "drawMenu (c\<lparr>deviceConnected := True\<rparr>) = Some menu"
    using drawMenu_total [of "c\<lparr>deviceConnected := True\<rparr>"] assms by auto
  show ?thesis
    using True menu drawMenu_calls(1) [OF menu]
    by (simp add: onConnect_def sinkCalls_append)
next
  case False
  then show ?thesis
    by (simp add: onConnect_def sinkCalls_append)
qed

lemma registry_ok_power_on: "registry_ok (power_on t0)"
  by (simp add: registry_ok_def power_on_def apps_init_def)

lemma registry_ok_connected_menu: "registry_ok connected_menu"
  by (simp add: connected_menu_def registry_ok_power_on)

section \<open>The connection callbacks\<close>

text \<open>
  Claim C10. The MIDI traffic of one \<open>onDisconnect\<close> is exactly the sequence of 128 messages
  with status byte 0x80 (NoteOff on channel 0), note number 0, 1, ..., 127 in this order, and
  velocity 0: one message per note number. \<open>onConnect\<close> sends no MIDI message at all.
\<close>

theorem disconnect_sweep_sequence:
  "registry_ok c \<Longrightarrow>
     map_option (sinkCalls \<circ> fst) (onDisconnect c) = Some (map (\<lambda>i. (0x80, int i, 0)) [0..<128]) \<and>
     map_option (sinkCalls \<circ> fst) (onConnect c) = Some []"
  using onDisconnect_result [of c] onConnect_result [of c] by auto

theorem disconnect_sweep_sequence_witness:
  "registry_ok (power_on no_touch) \<and>
   map_option (sinkCalls \<circ> fst) (onDisconnect (power_on no_touch)) =
     Some (map (\<lambda>i. (0x80, int i, 0)) [0..<128]) \<and>
   map_option (sinkCalls \<circ> fst) (onConnect (power_on no_touch)) = Some []"
  using disconnect_sweep_sequence [of "power_on no_touch"] registry_ok_power_on by simp

text \<open>
  Claim C1, as the claim states it, fails: the sweep of \<open>onDisconnect\<close> passes the
  status byte 0x80 for every note, which is NoteOff on channel 0. On a transition from
  connected to disconnected in the menu, no NoteOff for note 60 reaches channel 1.
\<close>

theorem disconnect_sweep_all_channels_counterexample:
  "deviceConnected connected_menu \<and>
   map_option (noteOffCount 1 60 \<circ> sinkCalls \<circ> fst) (onDisconnect connected_menu) = Some 0"
proof -
  from onDisconnect_result [OF registry_ok_connected_menu] obtain out where
    "onDisconnect connected_menu = Some (out, connected_menu\<lparr>deviceConnected := False\<rparr>)"
    "sinkCalls out = map (\<lambda>i. (0x80, int i, 0)) [0..<128]"
    by blast
  then show ?thesis
    by (simp add: noteOffCount_sweep connected_menu_def power_on_def)
qed

text \<open>
  Claim C1, amended. Every \<open>onDisconnect\<close>, in whatever mode and so in particular on every
  transition from connected to disconnected, clears the connection flag and sends, before it
  returns, 128 MIDI messages: exactly one NoteOff for each note number 0..127 on channel 0,
  and no NoteOff on any other channel.
\<close>

theorem disconnect_sweep_channel0:
  assumes "registry_ok c"
  shows "\<exists>out c'. onDisconnect c = Some (out, c') \<and> \<not> deviceConnected c' \<and>
           length (sinkCalls out) = 128 \<and>
           (\<forall>n. 0 \<le> n \<and> n < 128 \<longrightarrow> noteOffCount 0 n (sinkCalls out) = 1) \<and>
           (\<forall>ch n. ch \<noteq> 0 \<longrightarrow> noteOffCount ch n (sinkCalls out) = 0)"
proof -
  from onDisconnect_result [OF assms] obtain out where
    res: "onDisconnect c = Some (out, c\<lparr>deviceConnected := False\<rparr>)"
    and sweep: "sinkCalls out = map (\<lambda>i. (0x80, int i, 0)) [0..<128]"
    by blast
  have "length (sinkCalls out) = 128"
    by (simp add: sweep)
  moreover have "\<forall>n. 0 \<le> n \<and> n < 128 \<longrightarrow> noteOffCount 0 n (sinkCalls out) = 1"
    by (simp add: sweep noteOffCount_sweep)
  moreover have "\<forall>ch n. ch \<noteq> 0 \<longrightarrow> noteOffCount ch n (sinkCalls out) = 0"
    by (simp add: sweep noteOffCount_sweep)
  ultimately show ?thesis
    using res by simp
qed

theorem disconnect_sweep_channel0_witness:
  "registry_ok connected_menu \<and>
   (\<exists>out c'. onDisconnect connected_menu = Some (out, c') \<and> \<not> deviceConnected c' \<and>
      length (sinkCalls out) = 128 \<and>
      noteOffCount 0 60 (sinkCalls out) = 1 \<and> noteOffCount 9 60 (sinkCalls out) = 0)"
proof -
  from disconnect_sweep_channel0 [OF registry_ok_connected_menu]
  obtain out c' where "onDisconnect connected_menu = Some (out, c')" "\<not> deviceConnected c'"
    "length (sinkCalls out) = 128"
    "\<forall>n. 0 \<le> n \<and> n < 128 \<longrightarrow> noteOffCount 0 n (sinkCalls out) = 1"
    "\<forall>ch n. ch \<noteq> 0 \<longrightarrow> noteOffCount ch n (sinkCalls out) = 0"
    by blast
  then show ?thesis
    using registry_ok_connected_menu by auto
qed

text \<open>
  Claim C2, as the claim states it, fails: \<open>onDisconnect\<close> does not look at the connection
  flag before it sweeps. Delivered at power-on, where the flag is already false, it sends
  the 128 messages of the sweep.
\<close>

theorem duplicate_disconnect_sweeps_counterexample:
  "\<not> deviceConnected (power_on no_touch) \<and>
   map_option (length \<circ> sinkCalls \<circ> fst) (onDisconnect (power_on no_touch)) = Some 128"
proof -
  from onDisconnect_result [OF registry_ok_power_on, of no_touch] obtain out where
    "onDisconnect (power_on no_touch) = Some (out, (power_on no_touch)\<lparr>deviceConnected := False\<rparr>)"
    "sinkCalls out = map (\<lambda>i. (0x80, int i, 0)) [0..<128]"
    by blast
  then show ?thesis
    by (simp add: power_on_def)
qed

text \<open>
  Claim C2, amended. A repeated \<open>onConnect\<close> while connected, and a repeated \<open>onDisconnect\<close>
  while disconnected, leave the connection flag unchanged, and with it the other globals of
  the sketch (\<open>currentMode\<close>, \<open>touch\<close>, \<open>apps\<close>, \<open>numApps\<close>). \<open>onConnect\<close> never sends a
  MIDI message, so it never triggers the sweep. \<open>onDisconnect\<close> runs the all-notes-off sweep
  on every delivery, on a repeated one as on a transition from connected to disconnected:
  its MIDI traffic is exactly the 128 messages with status byte 0x80 (NoteOff), note number
  0, 1, ..., 127 and velocity 0, one NoteOff for each note number.
\<close>

theorem connection_events_repeat:
  assumes "registry_ok c"
  shows "(deviceConnected c \<longrightarrow>
            map_option snd (onConnect c) = Some c \<and>
            map_option (sinkCalls \<circ> fst) (onConnect c) = Some []) \<and>
         (\<not> deviceConnected c \<longrightarrow>
            map_option snd (onDisconnect c) = Some c \<and>
            map_option (sinkCalls \<circ> fst) (onDisconnect c) =
              Some (map (\<lambda>i. (0x80, int i, 0)) [0..<128])) \<and>
         (deviceConnected c \<longrightarrow>
            map_option (deviceConnected \<circ> snd) (onDisconnect c) = Some False \<and>
            map_option (sinkCalls \<circ> fst) (onDisconnect c) =
              Some (map (\<lambda>i. (0x80, int i, 0)) [0..<128])) \<and>
         map_option (sinkCalls \<circ> fst) (onConnect c) = Some [] \<and>
         map_option (sinkCalls \<circ> fst) (onDisconnect c) =
           Some (map (\<lambda>i. (0x80, int i, 0)) [0..<128]) \<and>
         (\<forall>n. 0 \<le> n \<and> n < 128 \<longrightarrow>
            map_option (noteOffCount 0 n \<circ> sinkCalls \<circ> fst) (onDisconnect c) = Some 1)"
proof -
  have same: "deviceConnected c = b \<Longrightarrow> c\<lparr>deviceConnected := b\<rparr> = c" for b
    by auto
  from onConnect_result [OF assms] obtain up where
    up: "onConnect c = Some (up, c\<lparr>deviceConnected := True\<rparr>)" "sinkCalls up = []"
    by blast
  from onDisconnect_result [OF assms] obtain down where
    down: "onDisconnect c = Some (down, c\<lparr>deviceConnected := False\<rparr>)"
      "sinkCalls down = map (\<lambda>i. (0x80, int i, 0)) [0..<128]"
    by blast
  have counts: "\<forall>n. 0 \<le> n \<and> n < 128 \<longrightarrow> noteOffCount 0 n (sinkCalls down) = 1"
    by (simp add: down(2) noteOffCount_sweep)
  have connect: "deviceConnected c \<longrightarrow> map_option snd (onConnect c) = Some c"
    using up(1) same [of True] by simp
  have disconnect: "\<not> deviceConnected c \<longrightarrow> map_option snd (onDisconnect c) = Some c"
    using down(1) same [of False] by simp
  have cleared: "map_option (deviceConnected \<circ> snd) (onDisconnect c) = Some False"
    using down(1) by simp
  have silent: "map_option (sinkCalls \<circ> fst) (onConnect c) = Some []"
    using up by simp
  have sweep: "map_option (sinkCalls \<circ> fst) (onDisconnect c) =
      Some (map (\<lambda>i. (0x80, int i, 0)) [0..<128])"
    using down by simp
  have each: "\<forall>n. 0 \<le> n \<and> n < 128 \<longrightarrow>
      map_option (noteOffCount 0 n \<circ> sinkCalls \<circ> fst) (onDisconnect c) = Some 1"
    using counts down(1) by simp
  from connect disconnect cleared silent sweep each show ?thesis
    by blast
qed

theorem connection_events_repeat_witness:
  "registry_ok connected_menu \<and> deviceConnected connected_menu \<and>
   map_option snd (onConnect connected_menu) = Some connected_menu \<and>
   map_option (sinkCalls \<circ> fst) (onConnect connected_menu) = Some [] \<and>
   map_option (deviceConnected \<circ> snd) (onDisconnect connected_menu) = Some False \<and>
   map_option (sinkCalls \<circ> fst) (onDisconnect connected_menu) =
     Some (map (\<lambda>i. (0x80, int i, 0)) [0..<128]) \<and>
   registry_ok (power_on no_touch) \<and> \<not> deviceConnected (power_on no_touch) \<and>
   map_option snd (onDisconnect (power_on no_touch)) = Some (power_on no_touch) \<and>
   map_option (sinkCalls \<circ> fst) (onDisconnect (power_on no_touch)) =
     Some (map (\<lambda>i. (0x80, int i, 0)) [0..<128]) \<and>
   map_option (noteOffCount 0 60 \<circ> sinkCalls \<circ> fst) (onDisconnect (power_on no_touch)) = Some 1"
proof -
  have flags: "deviceConnected connected_menu" "\<not> deviceConnected (power_on no_touch)"
    by (simp_all add: connected_menu_def power_on_def)
  have in_range: "(0::int) \<le> 60 \<and> (60::int) < 128"
    by simp
  note a = connection_events_repeat [OF registry_ok_connected_menu]
  note b = connection_events_repeat [OF registry_ok_power_on, of no_touch]
  from a flags(1) have "map_option snd (onConnect connected_menu) = Some connected_menu"
    "map_option (sinkCalls \<circ> fst) (onConnect connected_menu) = Some []"
    "map_option (deviceConnected \<circ> snd) (onDisconnect connected_menu) = Some False"
    "map_option (sinkCalls \<circ> fst) (onDisconnect connected_menu) =
       Some (map (\<lambda>i. (0x80, int i, 0)) [0..<128])"
    by blast+
  moreover from b flags(2) in_range have
    "map_option snd (onDisconnect (power_on no_touch)) = Some (power_on no_touch)"
    "map_option (sinkCalls \<circ> fst) (onDisconnect (power_on no_touch)) =
       Some (map (\<lambda>i. (0x80, int i, 0)) [0..<128])"
    "map_option (noteOffCount 0 60 \<circ> sinkCalls \<circ> fst) (onDisconnect (power_on no_touch)) = Some 1"
    by blast+
  ultimately show ?thesis
    using flags registry_ok_connected_menu registry_ok_power_on [of no_touch]
    by blast
qed

section \<open>The menu grid\<close>

lemma handlerCalls_append: "handlerCalls (xs @ ys) = handlerCalls xs @ handlerCalls ys"
  by (induction xs rule: handlerCalls.induct) simp_all

lemma handleMenuTouch_cell_eq:
  "handleMenuTouch_cell i = (44 + (int i mod 5) * 48, 65 + (int i div 5) * 63, 40, 40)"
  by (simp add: handleMenuTouch_cell_def Let_def)

lemma enterMode_state: "snd (enterMode m c) = c\<lparr>currentMode := m\<rparr>"
  by (simp add: enterMode_def Let_def)

lemma enterMode_calls:
  "sinkCalls (fst (enterMode m c)) = []"
  "testedRects (fst (enterMode m c)) = []"
  "handlerCalls (fst (enterMode m c)) = []"
  by (cases m; simp add: enterMode_def Let_def)+

lemma handleMenuTouch_loop_no_hit:
  "\<forall>j \<in> set is. \<not> cellHit P c j \<Longrightarrow>
     handleMenuTouch_loop P c is = Some (map cellQuery is, c)"
  by (induction "is") (auto simp: cellHit_def cellQuery_def split: prod.splits)

lemma handleMenuTouch_loop_first_hit:
  assumes "\<forall>j \<in> set pre. \<not> cellHit P c j" and "cellHit P c i" and "i < length (apps c)"
  shows "handleMenuTouch_loop P c (pre @ i # post) =
           Some (map cellQuery (pre @ [i]) @ fst (enterMode (mode (apps c ! i)) c),
                 snd (enterMode (mode (apps c ! i)) c))"
  using assms
  by (induction pre) (auto simp: cellHit_def cellQuery_def split: prod.splits)

lemma cells_apart:
  assumes "i \<noteq> j"
  shows "\<not> rectsOverlap (handleMenuTouch_cell i) (handleMenuTouch_cell j)"
proof (cases "int i div 5 = int j div 5")
  case True
  have "int i mod 5 \<noteq> int j mod 5"
  proof
    assume "int i mod 5 = int j mod 5"
    with True have "int i = int j"
      by (metis div_mult_mod_eq)
    with assms show False by simp
  qed
  then show ?thesis
    by (simp add: handleMenuTouch_cell_eq)
next
  case False
  then show ?thesis
    by (simp add: handleMenuTouch_cell_eq)
qed

lemma centre_inside_own_cell:
  assumes "(touch_x t, touch_y t) = rectCentre (handleMenuTouch_cell i)"
  shows "case handleMenuTouch_cell i of (x, y, w, h) \<Rightarrow> insidePixels t x y w h"
  using assms by (simp add: handleMenuTouch_cell_eq insidePixels_def)

lemma centre_outside_other_cell:
  assumes "(touch_x t, touch_y t) = rectCentre (handleMenuTouch_cell i)" and "j \<noteq> i"
  shows "case handleMenuTouch_cell j of (x, y, w, h) \<Rightarrow> \<not> insideClosed t x y w h"
proof -
  have "\<not> rectsOverlap (handleMenuTouch_cell i) (handleMenuTouch_cell j)"
    using assms(2) by (intro cells_apart) simp
  then show ?thesis
    using assms(1) by (simp add: handleMenuTouch_cell_eq insideClosed_def) linarith
qed

lemma upt_split_at: "i < n \<Longrightarrow> [0..<n] = [0..<i] @ i # [Suc i..<n]"
proof -
  assume "i < n"
  then have "[0..<n] = [0..<i] @ [i..<n]"
    using upt_add_eq_append [of 0 i "n - i"] by simp
  also have "[i..<n] = i # [Suc i..<n]"
    using \<open>i < n\<close> by (rule upt_conv_Cons)
  finally show ?thesis .
qed

text \<open>
  Claim C3. Take a registry of 1 to \<open>MAX_APPS\<close> = 12 entries with \<open>numApps\<close> its size, an
  index \<open>i\<close> below the size, and a just-pressed touch at the exact centre of the rectangle
  that \<open>handleMenuTouch\<close> computes for \<open>i\<close> (5 columns, icons of 40, spacing 8, the grid
  centred at x = 44). Then the rectangle of \<open>i\<close> overlaps the rectangle of no other index,
  not even at an edge, and \<open>handleMenuTouch\<close> enters the mode stored at index \<open>i\<close> of the
  registry. \<open>isButtonPressed\<close> is any containment test.
\<close>

theorem centre_tap_selects_cell:
  assumes size: "1 \<le> length (apps c)" "length (apps c) \<le> MAX_APPS"
      and count: "numApps c = int (length (apps c))"
      and index: "i < length (apps c)"
      and test: "containmentTest isButtonPressed"
      and tap: "touch c = tapAt (rectCentre (handleMenuTouch_cell i))"
  shows "(\<forall>j < length (apps c). j \<noteq> i \<longrightarrow>
            \<not> rectsOverlap (handleMenuTouch_cell i) (handleMenuTouch_cell j)) \<and>
         map_option (currentMode \<circ> snd) (handleMenuTouch isButtonPressed c)
           = Some (mode (apps c ! i))"
proof -
  have pos: "(touch_x (touch c), touch_y (touch c)) = rectCentre (handleMenuTouch_cell i)"
    and just: "justPressed (touch c)"
    by (simp_all add: tap tapAt_def)
  have hit: "cellHit isButtonPressed c i"
    using centre_inside_own_cell [OF pos] test just
    by (auto simp: cellHit_def containmentTest_def split: prod.splits)
  have miss: "\<not> cellHit isButtonPressed c j" if "j \<noteq> i" for j
    using centre_outside_other_cell [OF pos that] test just
    by (auto simp: cellHit_def containmentTest_def split: prod.splits)
  have n: "nat (numApps c) = length (apps c)"
    by (simp add: count)
  have before: "\<forall>j \<in> set [0..<i]. \<not> cellHit isButtonPressed c j"
    using miss by simp
  have "handleMenuTouch isButtonPressed c =
          handleMenuTouch_loop isButtonPressed c ([0..<i] @ i # [Suc i..<length (apps c)])"
    using upt_split_at [OF index] by (simp only: handleMenuTouch_def n)
  also have "\<dots> =
          Some (map cellQuery ([0..<i] @ [i]) @ fst (enterMode (mode (apps c ! i)) c),
                snd (enterMode (mode (apps c ! i)) c))"
    using before hit index by (rule handleMenuTouch_loop_first_hit)
  finally have "map_option (currentMode \<circ> snd) (handleMenuTouch isButtonPressed c)
               = Some (mode (apps c ! i))"
    by (simp add: enterMode_state)
  moreover have "\<forall>j < length (apps c). j \<noteq> i \<longrightarrow>
            \<not> rectsOverlap (handleMenuTouch_cell i) (handleMenuTouch_cell j)"
    using cells_apart [of i] by simp
  ultimately show ?thesis
    by simp
qed

lemma containmentTest_pressedInside: "containmentTest pressedInside"
  by (simp add: containmentTest_def pressedInside_def insidePixels_def insideClosed_def)

lemma tap_on_grid_facts:
  "apps tap_on_grid = apps_init" "numApps tap_on_grid = 10" "length apps_init = 10"
  "touch tap_on_grid = tapAt (160, 148)" "currentMode tap_on_grid = MENU"
  "registry_ok tap_on_grid"
  by (simp_all add: tap_on_grid_def power_on_def apps_init_def registry_ok_def)

theorem centre_tap_selects_cell_witness:
  "1 \<le> length (apps tap_on_grid) \<and> length (apps tap_on_grid) \<le> MAX_APPS \<and>
   numApps tap_on_grid = int (length (apps tap_on_grid)) \<and> 7 < length (apps tap_on_grid) \<and>
   containmentTest pressedInside \<and>
   touch tap_on_grid = tapAt (rectCentre (handleMenuTouch_cell 7)) \<and>
   \<not> rectsOverlap (handleMenuTouch_cell 7) (handleMenuTouch_cell 2) \<and>
   map_option (currentMode \<circ> snd) (handleMenuTouch pressedInside tap_on_grid) = Some GRID_PIANO"
proof -
  have pre: "1 \<le> length (apps tap_on_grid)" "length (apps tap_on_grid) \<le> MAX_APPS"
    "numApps tap_on_grid = int (length (apps tap_on_grid))" "7 < length (apps tap_on_grid)"
    "touch tap_on_grid = tapAt (rectCentre (handleMenuTouch_cell 7))"
    by (simp_all add: tap_on_grid_facts MAX_APPS_def handleMenuTouch_cell_eq)
  have "mode (apps tap_on_grid ! 7) = GRID_PIANO"
    by (simp add: tap_on_grid_facts) (simp add: apps_init_def)
  then show ?thesis
    using centre_tap_selects_cell [OF pre(1-4) containmentTest_pressedInside pre(5)] pre
      containmentTest_pressedInside
    by simp
qed

lemma enterMode_tested: "enterMode m c = (out, c') \<Longrightarrow> testedRects out = []"
  using enterMode_calls(2) [of m c] by simp

lemma handleMenuTouch_loop_tested:
  "handleMenuTouch_loop P c is = Some (out, c') \<Longrightarrow>
     \<exists>k \<le> length is. testedRects out = map handleMenuTouch_cell (take k is)"
proof (induction "is" arbitrary: out c')
  case Nil
  then show ?case by simp
next
  case (Cons i "is")
  show ?case
  proof (cases "cellHit P c i")
    case True
    with Cons.prems have "testedRects out = map handleMenuTouch_cell (take 1 (i # is))"
      by (auto simp: cellHit_def split: prod.splits if_splits dest: enterMode_tested)
    then show ?thesis
      by (intro exI [of _ 1]) simp
  next
    case False
    with Cons.prems obtain rest where
      rest: "handleMenuTouch_loop P c is = Some (rest, c')"
      and out: "testedRects out = handleMenuTouch_cell i # testedRects rest"
      by (auto simp: cellHit_def split: prod.splits option.splits)
    from Cons.IH [OF rest] obtain k where
      "k \<le> length is" "testedRects rest = map handleMenuTouch_cell (take k is)"
      by blast
    then show ?thesis
      by (intro exI [of _ "Suc k"]) (simp add: out)
  qed
qed

text \<open>
  Claim C4. Whenever \<open>drawMenu\<close> runs, it paints \<open>numApps\<close> icon backgrounds, and the
  rectangle \<open>(x, y, w, h)\<close> of the \<open>i\<close>-th one is the rectangle that \<open>handleMenuTouch\<close>
  computes for index \<open>i\<close>; and in every run of \<open>handleMenuTouch\<close> in the same state, the
  \<open>i\<close>-th rectangle passed to \<open>isButtonPressed\<close> is the \<open>i\<close>-th rectangle painted.
\<close>

theorem painted_cells_are_tested_cells:
  assumes "drawMenu c = Some painted"
  shows "length (paintedRects painted) = nat (numApps c) \<and>
         (\<forall>i < nat (numApps c). paintedRects painted ! i = handleMenuTouch_cell i) \<and>
         (\<forall>isButtonPressed tested c' i.
            handleMenuTouch isButtonPressed c = Some (tested, c') \<and>
            i < length (testedRects tested) \<longrightarrow>
              i < nat (numApps c) \<and> testedRects tested ! i = paintedRects painted ! i)"
proof -
  have painted: "paintedRects painted = map handleMenuTouch_cell [0..<nat (numApps c)]"
    using assms by (rule drawMenu_calls(3))
  have "i < nat (numApps c) \<and> testedRects tested ! i = paintedRects painted ! i"
    if run: "handleMenuTouch P c = Some (tested, c')" and i: "i < length (testedRects tested)"
    for P tested c' i
  proof -
    from run obtain k where k: "k \<le> nat (numApps c)"
      and tested: "testedRects tested = map handleMenuTouch_cell (take k [0..<nat (numApps c)])"
      using handleMenuTouch_loop_tested [of P c "[0..<nat (numApps c)]" tested c']
      by (auto simp: handleMenuTouch_def)
    from i k have "i < k" by (simp add: tested)
    with k show ?thesis
      by (simp add: tested painted)
  qed
  then show ?thesis
    by (simp add: painted) blast
qed

theorem painted_cells_are_tested_cells_witness:
  "\<exists>painted tested c'. drawMenu tap_on_grid = Some painted \<and>
     handleMenuTouch pressedInside tap_on_grid = Some (tested, c') \<and>
     length (paintedRects painted) = 10 \<and>
     paintedRects painted ! 7 = (140, 128, 40, 40) \<and>
     7 < length (testedRects tested) \<and> testedRects tested ! 7 = (140, 128, 40, 40)"
proof -
  obtain painted where painted: "drawMenu tap_on_grid = Some painted"
    using drawMenu_total [OF tap_on_grid_facts(6)] by blast
  have tested: "handleMenuTouch pressedInside tap_on_grid =
      Some ([IsButtonPressed 44 65 40 40, IsButtonPressed 92 65 40 40,
             IsButtonPressed 140 65 40 40, IsButtonPressed 188 65 40 40,
             IsButtonPressed 236 65 40 40, IsButtonPressed 44 128 40 40,
             IsButtonPressed 92 128 40 40, IsButtonPressed 140 128 40 40,
             DrawModeScreen GRID_PIANO, UpdateStatus],
            tap_on_grid\<lparr>currentMode := GRID_PIANO\<rparr>)"
    by code_simp
  show ?thesis
    using painted_cells_are_tested_cells [OF painted] painted tested
    by (simp add: tap_on_grid_facts handleMenuTouch_cell_eq)
qed

section \<open>Facts about the polling loop\<close>

lemma drawMenu_icon_handlers: "drawMenu_icon as i = Some cs \<Longrightarrow> handlerCalls cs = []"
  by (auto simp: drawMenu_icon_def Let_def split: if_splits)

lemma drawMenu_icons_handlers: "drawMenu_icons as is = Some out \<Longrightarrow> handlerCalls out = []"
proof (induction "is" arbitrary: out)
  case Nil
  then show ?case by simp
next
  case (Cons i "is")
  from Cons.prems obtain cs rest where
    cs: "drawMenu_icon as i = Some cs" and rest: "drawMenu_icons as is = Some rest"
    and out: "out = cs @ rest"
    by (auto split: option.splits)
  show ?case
    using Cons.IH [OF rest] drawMenu_icon_handlers [OF cs]
    by (simp add: out handlerCalls_append)
qed

lemma drawMenu_handlers: "drawMenu c = Some out \<Longrightarrow> handlerCalls out = []"
  by (auto simp: drawMenu_def drawMenu_header_def drawMenu_status_def handlerCalls_append
      split: option.splits dest: drawMenu_icons_handlers)

lemma drawMenu_reads [simp]:
  "drawMenu (c\<lparr>currentMode := m\<rparr>) = drawMenu c"
  "drawMenu (c\<lparr>touch := t\<rparr>) = drawMenu c"
  by (simp_all add: drawMenu_def split: option.splits)

lemma exitToMenu_result:
  assumes "registry_ok c"
  shows "\<exists>menu. drawMenu c = Some menu \<and>
           exitToMenu c = Some ([StopAllModes] @ menu @ [UpdateStatus], c\<lparr>currentMode := MENU\<rparr>)"
  using drawMenu_total [OF assms] by (auto simp: exitToMenu_def)

lemma modeHandler_result:
  assumes "registry_ok c"
  shows "\<exists>out c'. modeHandler m inp c = Some (out, c') \<and>
           c' = (if returnToMenu inp then c\<lparr>currentMode := MENU\<rparr> else c) \<and>
           handlerCalls out = [(m, touch c)] \<and> testedRects out = [] \<and> sinkCalls out = []"
proof (cases "returnToMenu inp")
  case True
  from exitToMenu_result [OF assms] obtain menu where
    menu: "drawMenu c = Some menu"
    and leave: "exitToMenu c = Some ([StopAllModes] @ menu @ [UpdateStatus], c\<lparr>currentMode := MENU\<rparr>)"
    by blast
  show ?thesis
    using True leave drawMenu_handlers [OF menu] drawMenu_calls(1,2) [OF menu]
    by (simp add: modeHandler_def handlerCalls_append testedRects_append sinkCalls_append)
next
  case False
  then show ?thesis by (simp add: modeHandler_def)
qed

lemma loop_in_mode:
  assumes "currentMode c \<noteq> MENU"
  shows "loop P inp c =
           (case modeHandler (currentMode c) inp (c\<lparr>touch := sampled inp\<rparr>) of
              None \<Rightarrow> None
            | Some (out, c2) \<Rightarrow> Some ([UpdateTouch] @ out @ [Delay 20], c2))"
  using assms by (cases "currentMode c") (simp_all add: loop_def Let_def)

lemma loop_in_menu:
  assumes "currentMode c = MENU"
  shows "loop P inp c =
           (case (if justPressed (sampled inp) then handleMenuTouch P (c\<lparr>touch := sampled inp\<rparr>)
                  else Some ([], c\<lparr>touch := sampled inp\<rparr>)) of
              None \<Rightarrow> None
            | Some (out, c2) \<Rightarrow> Some ([UpdateTouch] @ out @ [Delay 20], c2))"
  using assms by (simp add: loop_def Let_def)

lemma handleMenuTouch_loop_result:
  assumes "\<forall>i \<in> set is. i < length (apps c)"
  shows "\<exists>out c'. handleMenuTouch_loop P c is = Some (out, c') \<and>
           handlerCalls out = [] \<and> sinkCalls out = [] \<and>
           (is \<noteq> [] \<longrightarrow> testedRects out \<noteq> []) \<and>
           (c' = c \<or> (\<exists>i \<in> set is. c' = c\<lparr>currentMode := mode (apps c ! i)\<rparr>))"
  using assms
proof (induction "is")
  case Nil
  show ?case by simp
next
  case (Cons i "is")
  show ?case
  proof (cases "cellHit P c i")
    case True
    obtain x y w h where cell: "handleMenuTouch_cell i = (x, y, w, h)"
      by (cases "handleMenuTouch_cell i") auto
    obtain eout where enter: "enterMode (mode (apps c ! i)) c = (eout, c\<lparr>currentMode := mode (apps c ! i)\<rparr>)"
      using enterMode_state [of "mode (apps c ! i)" c] by (cases "enterMode (mode (apps c ! i)) c") auto
    have "handlerCalls eout = []" "sinkCalls eout = []"
      using enterMode_calls [of "mode (apps c ! i)" c] enter by simp_all
    with True Cons.prems cell enter show ?thesis
      by (simp add: cellHit_def)
  next
    case False
    from Cons obtain rest c' where
      rest: "handleMenuTouch_loop P c is = Some (rest, c')"
      "handlerCalls rest = []" "sinkCalls rest = []"
      "c' = c \<or> (\<exists>i \<in> set is. c' = c\<lparr>currentMode := mode (apps c ! i)\<rparr>)"
      by auto
    obtain x y w h where cell: "handleMenuTouch_cell i = (x, y, w, h)"
      by (cases "handleMenuTouch_cell i") auto
    with False rest show ?thesis
      by (auto simp: cellHit_def)
  qed
qed

lemma handleMenuTouch_result:
  assumes "registry_ok c"
  shows "\<exists>out c'. handleMenuTouch P c = Some (out, c') \<and>
           handlerCalls out = [] \<and> sinkCalls out = [] \<and>
           (0 < numApps c \<longrightarrow> testedRects out \<noteq> []) \<and>
           deviceConnected c' = deviceConnected c \<and> touch c' = touch c \<and>
           apps c' = apps c \<and> numApps c' = numApps c"
proof -
  have "\<forall>i \<in> set [0..<nat (numApps c)]. i < length (apps c)"
    using assms by (auto simp: registry_ok_def)
  from handleMenuTouch_loop_result [OF this, of P]
  show ?thesis
    unfolding handleMenuTouch_def by (elim exE conjE disjE bexE) auto
qed

lemma power_on_facts:
  "apps (power_on t0) = apps_init" "numApps (power_on t0) = 10"
  "touch (power_on t0) = t0" "currentMode (power_on t0) = MENU"
  "deviceConnected (power_on t0) = False"
  by (simp_all add: power_on_def)

text \<open>
  Claim C5. \<open>handleMenuTouch\<close> asks \<open>isButtonPressed\<close> about the cells in index order
  0, 1, 2, ... and stops at the first index \<open>i\<close> whose cell answers yes: it has then asked
  exactly about the cells 0..i and the current mode is the mode of registry entry \<open>i\<close>.
  If no cell below \<open>numApps\<close> answers yes, it has asked about all of them and the globals,
  the current mode among them, are unchanged. This holds for every touch and for every
  \<open>isButtonPressed\<close>.
\<close>

theorem menu_touch_first_hit:
  assumes "registry_ok c"
  shows "(\<forall>i < nat (numApps c).
            cellHit isButtonPressed c i \<and> (\<forall>j < i. \<not> cellHit isButtonPressed c j) \<longrightarrow>
              handleMenuTouch isButtonPressed c =
                Some (map cellQuery [0..<Suc i] @ fst (enterMode (mode (apps c ! i)) c),
                      c\<lparr>currentMode := mode (apps c ! i)\<rparr>)) \<and>
         ((\<forall>i < nat (numApps c). \<not> cellHit isButtonPressed c i) \<longrightarrow>
              handleMenuTouch isButtonPressed c = Some (map cellQuery [0..<nat (numApps c)], c))"
proof (intro conjI allI impI)
  fix i
  assume i: "i < nat (numApps c)"
    and first: "cellHit isButtonPressed c i \<and> (\<forall>j < i. \<not> cellHit isButtonPressed c j)"
  from i assms have in_range: "i < length (apps c)"
    by (simp add: registry_ok_def)
  from first have before: "\<forall>j \<in> set [0..<i]. \<not> cellHit isButtonPressed c j"
    by simp
  have "handleMenuTouch isButtonPressed c =
          handleMenuTouch_loop isButtonPressed c ([0..<i] @ i # [Suc i..<nat (numApps c)])"
    using upt_split_at [OF i] by (simp only: handleMenuTouch_def)
  also have "\<dots> =
          Some (map cellQuery ([0..<i] @ [i]) @ fst (enterMode (mode (apps c ! i)) c),
                snd (enterMode (mode (apps c ! i)) c))"
    using before conjunct1 [OF first] in_range by (rule handleMenuTouch_loop_first_hit)
  finally show "handleMenuTouch isButtonPressed c =
                Some (map cellQuery [0..<Suc i] @ fst (enterMode (mode (apps c ! i)) c),
                      c\<lparr>currentMode := mode (apps c ! i)\<rparr>)"
    by (simp add: enterMode_state)
next
  assume "\<forall>i < nat (numApps c). \<not> cellHit isButtonPressed c i"
  then have "\<forall>j \<in> set [0..<nat (numApps c)]. \<not> cellHit isButtonPressed c j"
    by simp
  then show "handleMenuTouch isButtonPressed c = Some (map cellQuery [0..<nat (numApps c)], c)"
    unfolding handleMenuTouch_def by (rule handleMenuTouch_loop_no_hit)
qed

theorem menu_touch_first_hit_witness:
  "registry_ok tap_on_grid \<and> 7 < nat (numApps tap_on_grid) \<and>
   cellHit pressedInside tap_on_grid 7 \<and>
   handleMenuTouch pressedInside tap_on_grid =
     Some (map cellQuery [0..<8] @ [DrawModeScreen GRID_PIANO, UpdateStatus],
           tap_on_grid\<lparr>currentMode := GRID_PIANO\<rparr>) \<and>
   registry_ok (power_on no_touch) \<and>
   handleMenuTouch pressedInside (power_on no_touch) =
     Some (map cellQuery [0..<10], power_on no_touch)"
proof -
  have pos: "(touch_x (touch tap_on_grid), touch_y (touch tap_on_grid)) =
      rectCentre (handleMenuTouch_cell 7)"
    by (simp add: tap_on_grid_facts tapAt_def handleMenuTouch_cell_eq)
  have hit: "cellHit pressedInside tap_on_grid 7"
    by (simp add: cellHit_def handleMenuTouch_cell_eq pressedInside_def insideClosed_def
        tap_on_grid_facts tapAt_def)
  have miss: "\<forall>j < 7. \<not> cellHit pressedInside tap_on_grid j"
  proof (intro allI impI)
    fix j :: nat
    assume "j < 7"
    then have "j \<noteq> 7" by simp
    from centre_outside_other_cell [OF pos this]
    show "\<not> cellHit pressedInside tap_on_grid j"
      by (simp add: cellHit_def pressedInside_def split: prod.splits)
  qed
  have entry: "mode (apps_init ! 7) = GRID_PIANO"
    by (simp add: apps_init_def)
  have none: "\<forall>i < nat (numApps (power_on no_touch)). \<not> cellHit pressedInside (power_on no_touch) i"
    by (simp add: cellHit_def pressedInside_def power_on_facts no_touch_def split: prod.splits)
  have "handleMenuTouch pressedInside tap_on_grid =
     Some (map cellQuery [0..<Suc 7] @ fst (enterMode (mode (apps tap_on_grid ! 7)) tap_on_grid),
           tap_on_grid\<lparr>currentMode := mode (apps tap_on_grid ! 7)\<rparr>)"
    using conjunct1 [OF menu_touch_first_hit [OF tap_on_grid_facts(6), of pressedInside],
        THEN spec, of 7] hit miss
    by (simp add: tap_on_grid_facts)
  moreover have "handleMenuTouch pressedInside (power_on no_touch) =
     Some (map cellQuery [0..<nat (numApps (power_on no_touch))], power_on no_touch)"
    using menu_touch_first_hit [OF registry_ok_power_on, of no_touch pressedInside] none
    by blast
  ultimately show ?thesis
    using hit tap_on_grid_facts(6) registry_ok_power_on [of no_touch]
    by (simp add: entry enterMode_def tap_on_grid_facts power_on_facts)
qed

section \<open>Executions and the registry\<close>

lemma step_result:
  assumes "registry_ok c"
  shows "\<exists>out c'. step P ev c = Some (out, c') \<and>
           apps c' = apps c \<and> numApps c' = numApps c \<and>
           (currentMode c' \<noteq> currentMode c \<and> currentMode c' \<noteq> MENU \<longrightarrow>
              currentMode c = MENU \<and> (\<exists>inp. ev = Tick inp \<and> justPressed (sampled inp)))"
proof (cases ev)
  case BLEConnect
  then show ?thesis using onConnect_result [OF assms] by auto
next
  case BLEDisconnect
  then show ?thesis using onDisconnect_result [OF assms] by auto
next
  case (Tick inp)
  have ok: "registry_ok (c\<lparr>touch := sampled inp\<rparr>)"
    using assms by simp
  show ?thesis
  proof (cases "currentMode c = MENU")
    case True
    show ?thesis
    proof (cases "justPressed (sampled inp)")
      case pressed: True
      from handleMenuTouch_result [OF ok, of P] obtain out c' where
        "handleMenuTouch P (c\<lparr>touch := sampled inp\<rparr>) = Some (out, c')"
        "apps c' = apps c" "numApps c' = numApps c"
        by auto
      with True pressed Tick show ?thesis
        by (simp add: loop_in_menu)
    next
      case False
      with True Tick show ?thesis
        by (simp add: loop_in_menu)
    qed
  next
    case False
    from modeHandler_result [OF ok, of "currentMode c" inp] obtain out c' where
      "modeHandler (currentMode c) inp (c\<lparr>touch := sampled inp\<rparr>) = Some (out, c')"
      "c' = (if returnToMenu inp then c\<lparr>touch := sampled inp, currentMode := MENU\<rparr>
             else c\<lparr>touch := sampled inp\<rparr>)"
      by auto
    with False Tick show ?thesis
      by (simp add: loop_in_mode)
  qed
qed

lemma step_registry_ok:
  "registry_ok c \<Longrightarrow> step P ev c = Some (out, c') \<Longrightarrow> registry_ok c'"
  using step_result [of c P ev] by (auto simp: registry_ok_def)

lemma run_result:
  "registry_ok c \<Longrightarrow>
     \<exists>out c'. run P evs c = Some (out, c') \<and> apps c' = apps c \<and> numApps c' = numApps c"
proof (induction evs arbitrary: c)
  case Nil
  show ?case by simp
next
  case (Cons ev evs)
  from step_result [OF Cons.prems, of P ev] obtain out c1 where
    s: "step P ev c = Some (out, c1)" "apps c1 = apps c" "numApps c1 = numApps c"
    by blast
  have "registry_ok c1"
    using Cons.prems s(1) by (rule step_registry_ok)
  from Cons.IH [OF this] obtain rest c2 where
    "run P evs c1 = Some (rest, c2)" "apps c2 = apps c1" "numApps c2 = numApps c1"
    by blast
  with s show ?case by simp
qed

lemma setup_sketch_result:
  assumes "registry_ok c"
  shows "\<exists>out. setup_sketch c = Some (out, c)"
  using drawMenu_total [OF assms] by (auto simp: setup_sketch_def)

lemma boot_result:
  "\<exists>out c. boot P t0 evs = Some (out, c) \<and> apps c = apps_init \<and> numApps c = 10"
proof -
  from setup_sketch_result [OF registry_ok_power_on] obtain out where
    "setup_sketch (power_on t0) = Some (out, power_on t0)"
    by blast
  moreover from run_result [OF registry_ok_power_on] obtain rest c where
    "run P evs (power_on t0) = Some (rest, c)" "apps c = apps (power_on t0)"
    "numApps c = numApps (power_on t0)"
    by blast
  ultimately show ?thesis
    by (simp add: boot_def power_on_facts)
qed

text \<open>
  Claim C9. The registry the sketch starts with has \<open>numApps\<close> = 10 entries, which is within
  \<open>MAX_APPS\<close> = 12; every mode other than \<open>MENU\<close> is the mode of exactly one entry and
  \<open>MENU\<close> of none; and after \<open>setup\<close> and any sequence of Bluetooth events and passes of
  \<open>loop\<close> (which all run to their end) \<open>apps\<close> and \<open>numApps\<close> are what they were at
  power-on.
\<close>

theorem registry_fixed:
  "numApps (power_on t0) = int (length (apps (power_on t0))) \<and>
   length (apps (power_on t0)) \<le> MAX_APPS \<and>
   (\<forall>m. m \<noteq> MENU \<longrightarrow> count_list (map mode (apps (power_on t0))) m = 1) \<and>
   count_list (map mode (apps (power_on t0))) MENU = 0 \<and>
   (\<forall>isButtonPressed evs. \<exists>out c. boot isButtonPressed t0 evs = Some (out, c) \<and>
      apps c = apps (power_on t0) \<and> numApps c = numApps (power_on t0))"
proof -
  have "count_list (map mode apps_init) m = 1" if "m \<noteq> MENU" for m
    using that by (cases m) (simp_all add: apps_init_def)
  moreover have "count_list (map mode apps_init) MENU = 0"
    by (simp add: apps_init_def)
  moreover have "length apps_init = 10"
    by (simp add: apps_init_def)
  ultimately show ?thesis
    using boot_result [of _ t0] by (simp add: power_on_facts MAX_APPS_def)
qed

theorem registry_fixed_witness:
  "LFO \<noteq> MENU \<and> count_list (map mode (apps (power_on no_touch))) LFO = 1 \<and>
   length (apps (power_on no_touch)) = 10 \<and>
   (\<exists>out c. boot pressedInside no_touch [BLEConnect, Tick tap7, BLEDisconnect] = Some (out, c) \<and>
      apps c = apps_init \<and> numApps c = 10)"
proof -
  have "length apps_init = 10"
    by (simp add: apps_init_def)
  then show ?thesis
    using registry_fixed [of no_touch] by (simp add: power_on_facts)
qed

section \<open>The mode state machine\<close>

lemma handleMenuTouch_loop_untested:
  "handleMenuTouch_loop P c is = Some (out, c') \<Longrightarrow> testedRects out = [] \<Longrightarrow> c' = c"
  by (cases "is") (auto split: prod.splits if_splits option.splits)

lemma modeHandler_mode:
  "modeHandler m inp c = Some (out, c') \<Longrightarrow>
     currentMode c' = currentMode c \<or> currentMode c' = MENU"
  by (auto simp: modeHandler_def exitToMenu_def split: if_splits option.splits)

lemma onConnect_mode: "onConnect c = Some (out, c') \<Longrightarrow> currentMode c' = currentMode c"
  by (auto simp: onConnect_def Let_def split: if_splits option.splits)

lemma onDisconnect_mode: "onDisconnect c = Some (out, c') \<Longrightarrow> currentMode c' = currentMode c"
  by (auto simp: onDisconnect_def Let_def split: if_splits option.splits)

lemma step_mode_change:
  assumes "step P ev c = Some (out, c')"
    and "currentMode c' \<noteq> currentMode c" and "currentMode c' \<noteq> MENU"
  shows "currentMode c = MENU \<and> (\<exists>inp. ev = Tick inp \<and> justPressed (sampled inp)) \<and>
         testedRects out \<noteq> []"
proof (cases ev)
  case BLEConnect
  with assms onConnect_mode show ?thesis by auto
next
  case BLEDisconnect
  with assms onDisconnect_mode show ?thesis by auto
next
  case (Tick inp)
  show ?thesis
  proof (cases "currentMode c = MENU")
    case False
    with assms(1) Tick obtain mid where
      "modeHandler (currentMode c) inp (c\<lparr>touch := sampled inp\<rparr>) = Some (mid, c')"
      by (auto simp: loop_in_mode split: option.splits)
    from modeHandler_mode [OF this] assms(2,3) show ?thesis by simp
  next
    case True
    show ?thesis
    proof (cases "justPressed (sampled inp)")
      case False
      with True assms Tick show ?thesis
        by (auto simp: loop_in_menu)
    next
      case pressed: True
      with True assms(1) Tick obtain mid where
        mid: "handleMenuTouch_loop P (c\<lparr>touch := sampled inp\<rparr>) [0..<nat (numApps c)] = Some (mid, c')"
        and out: "out = [UpdateTouch] @ mid @ [Delay 20]"
        by (auto simp: loop_in_menu handleMenuTouch_def split: option.splits)
      have "testedRects mid \<noteq> []"
      proof
        assume "testedRects mid = []"
        with mid have "c' = c\<lparr>touch := sampled inp\<rparr>"
          by (rule handleMenuTouch_loop_untested)
        with assms(2) show False by simp
      qed
      with True pressed Tick show ?thesis
        by (simp add: out testedRects_append)
    qed
  qed
qed

text \<open>
  Claim C7. The sketch starts in \<open>MENU\<close> and is still there after \<open>setup\<close>. In every step
  of every execution (a Bluetooth event or a pass of \<open>loop\<close>, from any state) that starts in
  a mode other than \<open>MENU\<close>, the mode afterwards is the same mode or \<open>MENU\<close>: no step leads
  from one mode to a different mode. A step that changes the current mode to a mode other
  than \<open>MENU\<close> starts in \<open>MENU\<close>, is a pass of \<open>loop\<close> whose touch was just pressed, and
  has asked the hit test.
\<close>

theorem mode_changes_pass_through_menu:
  "currentMode (power_on t0) = MENU \<and>
   map_option (currentMode \<circ> snd) (setup_sketch (power_on t0)) = Some MENU \<and>
   (\<forall>isButtonPressed ev c out c'.
      step isButtonPressed ev c = Some (out, c') \<and> currentMode c \<noteq> MENU \<longrightarrow>
        currentMode c' = currentMode c \<or> currentMode c' = MENU) \<and>
   (\<forall>isButtonPressed ev c out c'.
      step isButtonPressed ev c = Some (out, c') \<and>
      currentMode c' \<noteq> currentMode c \<and> currentMode c' \<noteq> MENU \<longrightarrow>
        currentMode c = MENU \<and> (\<exists>inp. ev = Tick inp \<and> justPressed (sampled inp)) \<and>
        testedRects out \<noteq> [])"
proof -
  obtain out where "setup_sketch (power_on t0) = Some (out, power_on t0)"
    using setup_sketch_result [OF registry_ok_power_on] by blast
  then have "map_option (currentMode \<circ> snd) (setup_sketch (power_on t0)) = Some MENU"
    by (simp add: power_on_facts)
  moreover have "currentMode c' = currentMode c \<or> currentMode c' = MENU"
    if "step P ev c = Some (out, c')" "currentMode c \<noteq> MENU" for P ev c out c'
    using step_mode_change [OF that(1)] that(2) by blast
  ultimately show ?thesis
    using step_mode_change by (simp add: power_on_facts) blast
qed

theorem mode_changes_pass_through_menu_witness:
  "\<exists>out c'. step pressedInside (Tick tap7) (power_on no_touch) = Some (out, c') \<and>
     currentMode c' = GRID_PIANO \<and> currentMode (power_on no_touch) = MENU \<and>
     justPressed (sampled tap7) \<and> testedRects out \<noteq> []"
proof -
  have run: "map_option (currentMode \<circ> snd) (step pressedInside (Tick tap7) (power_on no_touch))
      = Some GRID_PIANO"
    by code_simp
  then obtain out c' where
    s: "step pressedInside (Tick tap7) (power_on no_touch) = Some (out, c')"
    and m: "currentMode c' = GRID_PIANO"
    by auto
  have "currentMode c' \<noteq> currentMode (power_on no_touch)" "currentMode c' \<noteq> MENU"
    by (simp_all add: m power_on_facts)
  with mode_changes_pass_through_menu [of no_touch] s
  have "currentMode (power_on no_touch) = MENU \<and>
        (\<exists>inp. Tick tap7 = Tick inp \<and> justPressed (sampled inp)) \<and> testedRects out \<noteq> []"
    by blast
  with s m show ?thesis by auto
qed

text \<open>
  Claim C8. A pass of \<open>loop\<close> runs to its end. In \<open>MENU\<close> it calls no mode handler; if the
  sampled touch was just pressed it runs \<open>handleMenuTouch\<close> on the sampled touch and does
  nothing else between \<open>updateTouch\<close> and \<open>delay\<close>, and if it was not it does nothing at
  all there; so, the registry not being empty, \<open>isButtonPressed\<close> is asked in this pass
  exactly if the touch was just pressed. In a mode other than \<open>MENU\<close> the pass calls the
  handler of this mode, once, whatever the touch, while \<open>touch\<close> holds the whole sampled
  \<open>TouchState\<close>, and asks no hit test.
\<close>

theorem tick_dispatch:
  assumes "registry_ok c"
  shows "\<exists>out c'. loop isButtonPressed inp c = Some (out, c') \<and>
           (currentMode c = MENU \<longrightarrow>
              handlerCalls out = [] \<and>
              (0 < numApps c \<longrightarrow> (testedRects out \<noteq> [] \<longleftrightarrow> justPressed (sampled inp))) \<and>
              (justPressed (sampled inp) \<longrightarrow>
                 (\<exists>mid. handleMenuTouch isButtonPressed (c\<lparr>touch := sampled inp\<rparr>) = Some (mid, c') \<and>
                        out = [UpdateTouch] @ mid @ [Delay 20])) \<and>
              (\<not> justPressed (sampled inp) \<longrightarrow>
                 out = [UpdateTouch, Delay 20] \<and> c' = c\<lparr>touch := sampled inp\<rparr>)) \<and>
           (currentMode c \<noteq> MENU \<longrightarrow>
              handlerCalls out = [(currentMode c, sampled inp)] \<and> testedRects out = [])"
proof -
  have ok: "registry_ok (c\<lparr>touch := sampled inp\<rparr>)"
    using assms by simp
  show ?thesis
  proof (cases "currentMode c = MENU")
    case False
    from modeHandler_result [OF ok, of "currentMode c" inp] obtain mid c' where
      "modeHandler (currentMode c) inp (c\<lparr>touch := sampled inp\<rparr>) = Some (mid, c')"
      "handlerCalls mid = [(currentMode c, sampled inp)]" "testedRects mid = []"
      by auto
    with False show ?thesis
      by (simp add: loop_in_mode handlerCalls_append testedRects_append)
  next
    case True
    show ?thesis
    proof (cases "justPressed (sampled inp)")
      case False
      with True show ?thesis
        by (simp add: loop_in_menu)
    next
      case pressed: True
      from handleMenuTouch_result [OF ok, of isButtonPressed] obtain mid c' where
        "handleMenuTouch isButtonPressed (c\<lparr>touch := sampled inp\<rparr>) = Some (mid, c')"
        "handlerCalls mid = []" "0 < numApps c \<longrightarrow> testedRects mid \<noteq> []"
        by auto
      with True pressed show ?thesis
        by (simp add: loop_in_menu handlerCalls_append testedRects_append)
    qed
  qed
qed

theorem tick_dispatch_witness:
  "registry_ok (power_on no_touch) \<and> registry_ok in_lfo \<and>
   currentMode (power_on no_touch) = MENU \<and> justPressed (sampled tap7) \<and>
   0 < numApps (power_on no_touch) \<and> currentMode in_lfo \<noteq> MENU \<and>
   (\<exists>out c'. loop pressedInside tap7 (power_on no_touch) = Some (out, c') \<and>
      handlerCalls out = [] \<and> testedRects out \<noteq> []) \<and>
   (\<exists>out c'. loop pressedInside tap7 in_lfo = Some (out, c') \<and>
      handlerCalls out = [(LFO, tapAt (160, 148))] \<and> testedRects out = [])"
proof -
  have ok: "registry_ok in_lfo"
    by (simp add: in_lfo_def registry_ok_power_on)
  have facts: "currentMode (power_on no_touch) = MENU" "justPressed (sampled tap7)"
    "0 < numApps (power_on no_touch)" "currentMode in_lfo = LFO"
    "sampled tap7 = tapAt (160, 148)" "justPressed (tapAt (160, 148))"
    by (simp_all add: power_on_facts tap7_def tapAt_def in_lfo_def)
  show ?thesis
    using tick_dispatch [OF registry_ok_power_on, of pressedInside tap7 no_touch]
      tick_dispatch [OF ok, of pressedInside tap7] ok registry_ok_power_on [of no_touch]
    by (simp add: facts) blast
qed

lemma run_append:
  "run P (xs @ ys) c =
     (case run P xs c of
        None \<Rightarrow> None
      | Some (o1, c1) \<Rightarrow>
          (case run P ys c1 of None \<Rightarrow> None | Some (o2, c2) \<Rightarrow> Some (o1 @ o2, c2)))"
  by (induction xs arbitrary: c) (auto split: option.splits)

lemma loop_stays_in_mode:
  assumes "registry_ok c" and "currentMode c \<noteq> MENU" and "\<not> returnToMenu inp"
  shows "loop P inp c =
           Some ([UpdateTouch, HandleMode (currentMode c) (sampled inp), Delay 20],
                 c\<lparr>touch := sampled inp\<rparr>)"
  using assms by (simp add: loop_in_mode modeHandler_def)

lemma loop_leaves_mode:
  assumes "registry_ok c" and "currentMode c \<noteq> MENU" and "returnToMenu inp"
  shows "\<exists>menu. drawMenu c = Some menu \<and>
           loop P inp c =
             Some ([UpdateTouch, HandleMode (currentMode c) (sampled inp), StopAllModes]
                     @ menu @ [UpdateStatus, Delay 20],
                   c\<lparr>touch := sampled inp, currentMode := MENU\<rparr>)"
proof -
  have "registry_ok (c\<lparr>touch := sampled inp\<rparr>)"
    using assms(1) by simp
  from exitToMenu_result [OF this] assms(2,3) show ?thesis
    by (auto simp: loop_in_mode modeHandler_def)
qed

lemma run_stays_in_mode:
  assumes "registry_ok c" and "currentMode c \<noteq> MENU"
    and "\<forall>inp \<in> set stay. \<not> returnToMenu inp"
  shows "\<exists>out t. run P (map Tick stay) c = Some (out, c\<lparr>touch := t\<rparr>)"
  using assms
proof (induction stay arbitrary: c)
  case Nil
  have "c = c\<lparr>touch := touch c\<rparr>" by simp
  then show ?case
    by (metis list.simps(8) run.simps(1))
next
  case (Cons inp stay)
  have first: "loop P inp c =
      Some ([UpdateTouch, HandleMode (currentMode c) (sampled inp), Delay 20],
            c\<lparr>touch := sampled inp\<rparr>)"
    using Cons.prems by (intro loop_stays_in_mode) simp_all
  have "\<exists>out t. run P (map Tick stay) (c\<lparr>touch := sampled inp\<rparr>)
          = Some (out, c\<lparr>touch := sampled inp\<rparr>\<lparr>touch := t\<rparr>)"
    using Cons.prems by (intro Cons.IH) simp_all
  then obtain out t where
    "run P (map Tick stay) (c\<lparr>touch := sampled inp\<rparr>) = Some (out, c\<lparr>touch := t\<rparr>)"
    by auto
  with first have "run P (map Tick (inp # stay)) c =
      Some ([UpdateTouch, HandleMode (currentMode c) (sampled inp), Delay 20] @ out,
            c\<lparr>touch := t\<rparr>)"
    by simp
  then show ?case by blast
qed

text \<open>
  Claim C6. From the menu, enter a mode \<open>M\<close> and return. Returning at once gives back the
  globals exactly as they were before \<open>M\<close> was entered. With any number of passes of
  \<open>loop\<close> spent in \<open>M\<close> before the pass in which \<open>M\<close> returns, the globals afterwards
  are those from before but for \<open>touch\<close>, which holds the last sample: the current mode,
  the connection flag and the registry are as before, and nothing records that \<open>M\<close> was
  active. The last calls of the return are \<open>stopAllModes\<close>, then the calls of \<open>drawMenu\<close>,
  then \<open>updateStatus\<close>.
\<close>

theorem menu_mode_menu_round_trip:
  assumes menu: "currentMode c = MENU" and ok: "registry_ok c" and mode: "M \<noteq> MENU"
    and stay: "\<forall>inp \<in> set stay. \<not> returnToMenu inp" and leave: "returnToMenu leave"
  shows "map_option snd (exitToMenu (snd (enterMode M c))) = Some c \<and>
         (\<exists>early menu.
            drawMenu c = Some menu \<and>
            run isButtonPressed (map Tick (stay @ [leave])) (snd (enterMode M c)) =
              Some (early @ [StopAllModes] @ menu @ [UpdateStatus, Delay 20],
                    c\<lparr>touch := sampled leave\<rparr>))"
proof -
  let ?c1 = "c\<lparr>currentMode := M\<rparr>"
  have restored: "?c1\<lparr>currentMode := MENU\<rparr> = c"
    using menu by simp
  have ok1: "registry_ok ?c1"
    using ok by simp
  have direct: "map_option snd (exitToMenu (snd (enterMode M c))) = Some c"
    using exitToMenu_result [OF ok1] restored by (auto simp: enterMode_state)
  from run_stays_in_mode [OF ok1 _ stay, of isButtonPressed] mode obtain out1 t where
    part1: "run isButtonPressed (map Tick stay) ?c1 = Some (out1, ?c1\<lparr>touch := t\<rparr>)"
    by auto
  have "registry_ok (?c1\<lparr>touch := t\<rparr>)" "currentMode (?c1\<lparr>touch := t\<rparr>) \<noteq> MENU"
    using ok mode by simp_all
  from loop_leaves_mode [OF this leave, of isButtonPressed] obtain menu where
    drawn: "drawMenu c = Some menu"
    and part2: "loop isButtonPressed leave (?c1\<lparr>touch := t\<rparr>) =
      Some ([UpdateTouch, HandleMode M (sampled leave), StopAllModes] @ menu @ [UpdateStatus, Delay 20],
            ?c1\<lparr>touch := t\<rparr>\<lparr>touch := sampled leave, currentMode := MENU\<rparr>)"
    by auto
  have final: "?c1\<lparr>touch := t\<rparr>\<lparr>touch := sampled leave, currentMode := MENU\<rparr> = c\<lparr>touch := sampled leave\<rparr>"
    using menu by simp
  have "run isButtonPressed (map Tick (stay @ [leave])) (snd (enterMode M c)) =
      Some ((out1 @ [UpdateTouch, HandleMode M (sampled leave)]) @ [StopAllModes] @ menu
              @ [UpdateStatus, Delay 20],
            c\<lparr>touch := sampled leave\<rparr>)"
    using part1 part2 final by (simp add: run_append enterMode_state)
  with drawn direct show ?thesis
    by blast
qed

theorem menu_mode_menu_round_trip_witness:
  "currentMode (power_on no_touch) = MENU \<and> registry_ok (power_on no_touch) \<and>
   SEQUENCER \<noteq> MENU \<and> \<not> returnToMenu tap7 \<and> returnToMenu leave_tick \<and>
   map_option snd (exitToMenu (snd (enterMode SEQUENCER (power_on no_touch))))
     = Some (power_on no_touch) \<and>
   map_option snd (run pressedInside (map Tick [tap7, leave_tick])
                     (snd (enterMode SEQUENCER (power_on no_touch))))
     = Some (power_on no_touch)"
proof -
  have pre: "currentMode (power_on no_touch) = MENU" "SEQUENCER \<noteq> MENU"
    "\<forall>inp \<in> set [tap7]. \<not> returnToMenu inp" "returnToMenu leave_tick"
    by (simp_all add: power_on_facts tap7_def leave_tick_def)
  have same: "(power_on no_touch)\<lparr>touch := sampled leave_tick\<rparr> = power_on no_touch"
    by (simp add: power_on_def leave_tick_def)
  from menu_mode_menu_round_trip [OF pre(1) registry_ok_power_on pre(2,3,4), of pressedInside]
  show ?thesis
    using pre registry_ok_power_on [of no_touch] by (auto simp: same)
qed

end
